theory Spec2Isabelle
  imports Main
begin

section \<open>The Nim engine of aidoodle (\<^verbatim>\<open>aidoodle/games/nim.py\<close>)\<close>

text \<open>
  The module is a set of frozen dataclasses (Move, Player, Board, Game) and pure
  functions over them. Python integers are unbounded, so every integer field is an
  \<^typ>\<open>int\<close>. Everything that raises in the source returns \<open>Inl\<close> here.
\<close>

subsection \<open>Exceptions\<close>

datatype error = ValueError string | IndexError

subsection \<open>Module constants\<close>

definition POSSIBLE_PLAYERS :: "int set" where
  "POSSIBLE_PLAYERS = {-1, 1, 2}"

definition POSSIBLE_HEAPS :: "int set" where
  "POSSIBLE_HEAPS = {0, 1, 2}"

subsection \<open>Subscripting a tuple\<close>

text \<open>
  \<^verbatim>\<open>t[k]\<close> on a Python tuple: a negative index counts from the end, an index outside
  \<open>-len t \<dots> len t - 1\<close> raises IndexError.
\<close>

definition subscript :: "'a list \<Rightarrow> int \<Rightarrow> error + 'a" where
  "subscript t k =
     (let n = int (length t); k' = (if k < 0 then n + k else k)
      in if 0 \<le> k' \<and> k' < n then Inr (t ! nat k') else Inl IndexError)"

subsection \<open>Move\<close>

text \<open>
  The dataclass has the fields \<open>i\<close> (the heap) and \<open>j\<close> (the amount). The datatype
  constructor stores the fields; \<open>Move_post_init\<close> is \<^verbatim>\<open>__post_init__\<close>, and
  \<open>new_Move i j\<close> is the Python expression \<^verbatim>\<open>Move(i, j)\<close>.
\<close>

datatype Move = Move (Move_i: int) (Move_j: int)

definition Move_post_init :: "Move \<Rightarrow> error + unit" where
  "Move_post_init m =
     (if Move_i m \<notin> POSSIBLE_HEAPS then Inl (ValueError [])
      else if Move_j m < 1 then Inl (ValueError ''You have to take at least one stone'')
      else Inr ())"

definition new_Move :: "int \<Rightarrow> int \<Rightarrow> error + Move" where
  "new_Move i j =
     (case Move_post_init (Move i j) of Inl e \<Rightarrow> Inl e | Inr u \<Rightarrow> Inr (Move i j))"

subsection \<open>Agents and players\<close>

datatype Agent = Agent | RandomAgent | CliInputAgent

datatype Player = Player (Player_i: int) (Player_agent: Agent)

definition Player_post_init :: "Player \<Rightarrow> error + unit" where
  "Player_post_init p =
     (if Player_i p \<notin> POSSIBLE_PLAYERS then Inl (ValueError []) else Inr ())"

text \<open>\<^verbatim>\<open>Player(i, agent)\<close>; the agent defaults to \<^verbatim>\<open>RandomAgent()\<close>.\<close>

definition new_Player :: "int \<Rightarrow> Agent \<Rightarrow> error + Player" where
  "new_Player i a =
     (case Player_post_init (Player i a) of Inl e \<Rightarrow> Inl e | Inr u \<Rightarrow> Inr (Player i a))"

text \<open>\<^verbatim>\<open>Player.__eq__\<close> between two players compares the identifiers only.\<close>

definition Player_eq :: "Player \<Rightarrow> Player \<Rightarrow> bool" where
  "Player_eq p q = (Player_i p = Player_i q)"

subsection \<open>Board and Game\<close>

record Board =
  state :: "int \<times> int \<times> int"

text \<open>\<^verbatim>\<open>Board.__iter__\<close> yields the three heaps in order.\<close>

definition Board_iter :: "Board \<Rightarrow> int list" where
  "Board_iter b = (case state b of (s0, s1, s2) \<Rightarrow> [s0, s1, s2])"

record Game =
  players :: "Player \<times> Player"
  board :: Board
  player_idx :: int

text \<open>The property \<^verbatim>\<open>Game.player\<close> is \<^verbatim>\<open>self.players[self.player_idx]\<close>.\<close>

definition player :: "Game \<Rightarrow> error + Player" where
  "player g = subscript [fst (players g), snd (players g)] (player_idx g)"

definition determine_winner :: "Game \<Rightarrow> error + Player option" where
  "determine_winner g =
     (if sum_list (Board_iter (board g)) \<noteq> 0 then Inr None
      else case player g of Inl e \<Rightarrow> Inl e | Inr p \<Rightarrow> Inr (Some p))"

text \<open>The property \<^verbatim>\<open>Game.winner\<close>.\<close>

definition winner :: "Game \<Rightarrow> error + Player option" where
  "winner g = determine_winner g"

text \<open>\<^verbatim>\<open>int(game.player == Player(1))\<close>.\<close>

definition get_next_player_idx :: "Game \<Rightarrow> error + int" where
  "get_next_player_idx g =
     (case player g of Inl e \<Rightarrow> Inl e
      | Inr p \<Rightarrow>
         (case new_Player 1 RandomAgent of Inl e \<Rightarrow> Inl e
          | Inr q \<Rightarrow> Inr (if Player_eq p q then 1 else 0)))"

subsection \<open>Legal moves\<close>

text \<open>Running a list of constructor calls stops at the first one that raises.\<close>

fun collect :: "(error + 'a) list \<Rightarrow> error + 'a list" where
  "collect [] = Inr []"
| "collect (x # xs) =
     (case x of Inl e \<Rightarrow> Inl e
      | Inr v \<Rightarrow> (case collect xs of Inl e \<Rightarrow> Inl e | Inr vs \<Rightarrow> Inr (v # vs)))"

text \<open>
  The generator \<^verbatim>\<open>_get_all_moves\<close>, run to its end as \<^verbatim>\<open>list(...)\<close> does:
  for every heap \<open>i\<close> of size \<open>n \<noteq> 0\<close>, the moves \<^verbatim>\<open>Move(i, j)\<close> for
  \<open>j\<close> in \<^verbatim>\<open>range(1, n + 1)\<close>.
\<close>

definition get_all_moves :: "Board \<Rightarrow> error + Move list" where
  "get_all_moves b =
     collect (concat (map (\<lambda>(i, n). if n = 0 then [] else map (new_Move (int i)) [1..n])
                          (enumerate 0 (Board_iter b))))"

text \<open>
  \<^verbatim>\<open>if game.winner: return []\<close>. A Player defines neither \<^verbatim>\<open>__bool__\<close> nor
  \<^verbatim>\<open>__len__\<close>, so every player is true and the test is "the winner is not None".
\<close>

definition get_legal_moves :: "Game \<Rightarrow> error + Move list" where
  "get_legal_moves g =
     (case winner g of Inl e \<Rightarrow> Inl e
      | Inr (Some w) \<Rightarrow> Inr []
      | Inr None \<Rightarrow> get_all_moves (board g))"

subsection \<open>Applying a move\<close>

text \<open>The player argument exists for compatibility and is not read.\<close>

definition apply_move :: "Board \<Rightarrow> Move \<Rightarrow> Player \<Rightarrow> error + Board" where
  "apply_move b m p =
     (case state b of (s0, s1, s2) \<Rightarrow>
        (let i_heap = Move_i m; n_stones = Move_j m in
         case subscript [s0, s1, s2] i_heap of Inl e \<Rightarrow> Inl e
         | Inr h \<Rightarrow>
            if h < n_stones then Inl (ValueError ''illegal move'')
            else Inr \<lparr>state =
                   (if i_heap = 0 then s0 - n_stones else s0,
                    if i_heap = 1 then s1 - n_stones else s1,
                    if i_heap = 2 then s2 - n_stones else s2)\<rparr>))"

text \<open>
  \<^verbatim>\<open>get_move\<close> asks the agent of the current player. What the agent answers comes from
  the console or from the random generator; \<open>reply\<close> stands for the outcome of that one
  call \<^verbatim>\<open>game.player.agent.next_move(game)\<close>.
\<close>

definition get_move :: "error + Move \<Rightarrow> Game \<Rightarrow> error + Move" where
  "get_move reply g = (case player g of Inl e \<Rightarrow> Inl e | Inr p \<Rightarrow> reply)"

text \<open>
  \<^verbatim>\<open>make_move(game, move)\<close>. The arguments of the call to \<^verbatim>\<open>apply_move\<close>, among them
  \<^verbatim>\<open>game.player\<close>, are evaluated before the call.
\<close>

definition make_move :: "error + Move \<Rightarrow> Game \<Rightarrow> Move option \<Rightarrow> error + Game" where
  "make_move reply g move =
     (case (case move of None \<Rightarrow> get_move reply g | Some m \<Rightarrow> Inr m) of Inl e \<Rightarrow> Inl e
      | Inr m \<Rightarrow>
         (case player g of Inl e \<Rightarrow> Inl e
          | Inr p \<Rightarrow>
             (case apply_move (board g) m p of Inl e \<Rightarrow> Inl e
              | Inr b \<Rightarrow>
                 (case get_next_player_idx g of Inl e \<Rightarrow> Inl e
                  | Inr k \<Rightarrow> Inr \<lparr>players = players g, board = b, player_idx = k\<rparr>))))"

text \<open>
  \<^verbatim>\<open>init_game(board, player_idx)\<close>; \<open>random_board\<close> stands for what
  \<^verbatim>\<open>make_random_board()\<close> draws when no board is given.
\<close>

definition init_game :: "Board \<Rightarrow> Board option \<Rightarrow> int \<Rightarrow> error + Game" where
  "init_game random_board b idx =
     (let chosen = (case b of None \<Rightarrow> random_board | Some b' \<Rightarrow> b') in
      case new_Player 1 RandomAgent of Inl e \<Rightarrow> Inl e
      | Inr p1 \<Rightarrow>
         (case new_Player 2 RandomAgent of Inl e \<Rightarrow> Inl e
          | Inr p2 \<Rightarrow> Inr \<lparr>players = (p1, p2), board = chosen, player_idx = idx\<rparr>))"

subsection \<open>Notions used to state the properties\<close>

text \<open>
  Neither Board nor Game validates its fields. The index of the player to move can be
  subscripted when it lies between \<open>-2\<close> and \<open>1\<close>.
\<close>

definition valid_player_idx :: "Game \<Rightarrow> bool" where
  "valid_player_idx g = (- 2 \<le> player_idx g \<and> player_idx g \<le> 1)"

definition heaps_nonneg :: "Board \<Rightarrow> bool" where
  "heaps_nonneg b = (\<forall>n \<in> set (Board_iter b). 0 \<le> n)"

text \<open>
  One turn of a match: a move taken from \<open>get_legal_moves\<close> is applied with
  \<open>make_move\<close>.
\<close>

definition legal_step :: "error + Move \<Rightarrow> Game \<Rightarrow> Game \<Rightarrow> bool" where
  "legal_step r g g' =
     (case get_legal_moves g of Inl e \<Rightarrow> False
      | Inr ms \<Rightarrow> (\<exists>m \<in> set ms. make_move r g (Some m) = Inr g'))"

text \<open>The moves the inner loop of \<^verbatim>\<open>_get_all_moves\<close> yields for heap \<open>i\<close> of size \<open>n\<close>.\<close>

definition takes :: "int \<Rightarrow> int \<Rightarrow> Move list" where
  "takes i n = (if n = 0 then [] else map (Move i) [1..n])"

section \<open>Auxiliary facts\<close>

subsection \<open>Constructors\<close>

lemma new_Move_iff: "new_Move i j = Inr m \<longleftrightarrow> (i \<in> {0, 1, 2} \<and> 1 \<le> j \<and> m = Move i j)"
  by (auto simp: new_Move_def Move_post_init_def POSSIBLE_HEAPS_def)

lemma new_Player_iff: "new_Player i a = Inr p \<longleftrightarrow> (i \<in> {-1, 1, 2} \<and> p = Player i a)"
  by (auto simp: new_Player_def Player_post_init_def POSSIBLE_PLAYERS_def)

subsection \<open>The current player\<close>

lemma player_cases:
  "player g =
     (if player_idx g = 0 \<or> player_idx g = - 2 then Inr (fst (players g))
      else if player_idx g = 1 \<or> player_idx g = - 1 then Inr (snd (players g))
      else Inl IndexError)"
proof -
  have "nat k = 0 \<longleftrightarrow> k = 0" if "0 \<le> k" for k :: int
    using that by auto
  then show ?thesis
    by (auto simp: player_def subscript_def Let_def nth_Cons split: nat.splits)
qed

lemma player_valid: "(\<exists>p. player g = Inr p) \<longleftrightarrow> valid_player_idx g"
  by (auto simp: player_cases valid_player_idx_def)

lemma player_invalid: "\<not> valid_player_idx g \<Longrightarrow> player g = Inl IndexError"
  by (auto simp: player_cases valid_player_idx_def)

lemma get_next_player_idx_player:
  "get_next_player_idx g =
     (case player g of Inl e \<Rightarrow> Inl e | Inr p \<Rightarrow> Inr (if Player_i p = 1 then 1 else 0))"
  by (simp add: get_next_player_idx_def new_Player_def Player_post_init_def
      POSSIBLE_PLAYERS_def Player_eq_def split: sum.splits)

subsection \<open>Applying a move to one heap\<close>

lemma apply_move_heap0:
  "state b = (s0, s1, s2) \<Longrightarrow>
   apply_move b (Move 0 n) p =
     (if s0 < n then Inl (ValueError ''illegal move'') else Inr \<lparr>state = (s0 - n, s1, s2)\<rparr>)"
  by (simp add: apply_move_def subscript_def)

lemma apply_move_heap1:
  "state b = (s0, s1, s2) \<Longrightarrow>
   apply_move b (Move 1 n) p =
     (if s1 < n then Inl (ValueError ''illegal move'') else Inr \<lparr>state = (s0, s1 - n, s2)\<rparr>)"
  by (simp add: apply_move_def subscript_def)

lemma apply_move_heap2:
  "state b = (s0, s1, s2) \<Longrightarrow>
   apply_move b (Move 2 n) p =
     (if s2 < n then Inl (ValueError ''illegal move'') else Inr \<lparr>state = (s0, s1, s2 - n)\<rparr>)"
  by (simp add: apply_move_def subscript_def)

lemma make_move_Some:
  "make_move r g (Some m) = Inr g' \<longleftrightarrow>
     (\<exists>p b. player g = Inr p \<and> apply_move (board g) m p = Inr b \<and>
        g' = \<lparr>players = players g, board = b,
              player_idx = (if Player_i p = 1 then 1 else 0)\<rparr>)"
  by (auto simp: make_move_def get_next_player_idx_player split: sum.splits)

subsection \<open>The list of legal moves\<close>

lemma collect_Inr: "collect (map Inr xs) = Inr xs"
  by (induction xs) auto

lemma heap_moves_Inr:
  "i \<in> {0, 1, 2} \<Longrightarrow> map (new_Move i) [1..n] = map Inr (map (Move i) [1..n])"
  by (auto simp: new_Move_def Move_post_init_def POSSIBLE_HEAPS_def)

lemma set_takes: "set (takes i n) = {Move i j | j. 1 \<le> j \<and> j \<le> n}"
  by (auto simp: takes_def)

lemma get_all_moves_state:
  assumes "state b = (s0, s1, s2)"
  shows "get_all_moves b = Inr (takes 0 s0 @ takes 1 s1 @ takes 2 s2)"
proof -
  have e: "enumerate 0 (Board_iter b) = [(0, s0), (1, s1), (2, s2)]"
    using assms by (simp add: Board_iter_def)
  have h: "(if n = 0 then [] else map (new_Move i) [1..n]) = map Inr (takes i n)"
    if "i \<in> {0, 1, 2}" for i n
    using that heap_moves_Inr [OF that, of n] by (simp add: takes_def)
  show ?thesis
    unfolding get_all_moves_def e
    by (simp add: h collect_Inr flip: map_append)
qed

lemma get_legal_moves_open:
  assumes "sum_list (Board_iter (board g)) \<noteq> 0" and "state (board g) = (s0, s1, s2)"
  shows "get_legal_moves g = Inr (takes 0 s0 @ takes 1 s1 @ takes 2 s2)"
  using assms
  by (simp add: get_legal_moves_def winner_def determine_winner_def get_all_moves_state)

lemma legal_move_shape:
  assumes "get_legal_moves g = Inr ms" and "m \<in> set ms" and "state (board g) = (s0, s1, s2)"
  shows "s0 + s1 + s2 \<noteq> 0 \<and>
     (\<exists>j. 1 \<le> j \<and>
        (m = Move 0 j \<and> j \<le> s0 \<or> m = Move 1 j \<and> j \<le> s1 \<or> m = Move 2 j \<and> j \<le> s2))"
proof (cases "sum_list (Board_iter (board g)) = 0")
  case True
  with assms(1,2) show ?thesis
    by (auto simp: get_legal_moves_def winner_def determine_winner_def split: sum.splits)
next
  case False
  from get_legal_moves_open [OF False assms(3)] assms(1,2)
  have "m \<in> set (takes 0 s0) \<union> set (takes 1 s1) \<union> set (takes 2 s2)"
    by auto
  with False assms(3) show ?thesis
    by (auto simp: set_takes Board_iter_def)
qed

lemma legal_move_applies:
  assumes "get_legal_moves g = Inr ms" and "m \<in> set ms" and "player g = Inr p"
  shows "\<exists>b. apply_move (board g) m p = Inr b \<and>
     make_move r g (Some m) =
       Inr \<lparr>players = players g, board = b, player_idx = (if Player_i p = 1 then 1 else 0)\<rparr>"
proof -
  obtain s0 s1 s2 where s: "state (board g) = (s0, s1, s2)"
    by (cases "state (board g)") auto
  from legal_move_shape [OF assms(1,2) s]
  have "\<exists>b. apply_move (board g) m p = Inr b"
    by (auto simp: apply_move_heap0 [OF s] apply_move_heap1 [OF s] apply_move_heap2 [OF s])
  then obtain b where b: "apply_move (board g) m p = Inr b" ..
  have "make_move r g (Some m) =
       Inr \<lparr>players = players g, board = b, player_idx = (if Player_i p = 1 then 1 else 0)\<rparr>"
    unfolding make_move_Some using assms(3) b by simp
  with b show ?thesis by blast
qed

subsection \<open>One turn\<close>

lemma legal_step_cases:
  assumes "legal_step r g g'" and "state (board g) = (s0, s1, s2)"
  shows "\<exists>j. 1 \<le> j \<and> players g' = players g \<and> player_idx g' \<in> {0, 1} \<and>
     (j \<le> s0 \<and> state (board g') = (s0 - j, s1, s2) \<or>
      j \<le> s1 \<and> state (board g') = (s0, s1 - j, s2) \<or>
      j \<le> s2 \<and> state (board g') = (s0, s1, s2 - j))"
proof -
  from assms(1) obtain ms m where ms: "get_legal_moves g = Inr ms" and m: "m \<in> set ms"
    and mm: "make_move r g (Some m) = Inr g'"
    by (auto simp: legal_step_def split: sum.splits)
  from legal_move_shape [OF ms m assms(2)] obtain j where j: "1 \<le> j"
    and c: "m = Move 0 j \<and> j \<le> s0 \<or> m = Move 1 j \<and> j \<le> s1 \<or> m = Move 2 j \<and> j \<le> s2"
    by blast
  from mm obtain p b where b: "apply_move (board g) m p = Inr b"
    and g': "g' = \<lparr>players = players g, board = b,
              player_idx = (if Player_i p = 1 then 1 else 0)\<rparr>"
    by (auto simp: make_move_Some)
  from c b have "j \<le> s0 \<and> state b = (s0 - j, s1, s2) \<or>
      j \<le> s1 \<and> state b = (s0, s1 - j, s2) \<or>
      j \<le> s2 \<and> state b = (s0, s1, s2 - j)"
    by (auto simp: apply_move_heap0 [OF assms(2)] apply_move_heap1 [OF assms(2)]
        apply_move_heap2 [OF assms(2)] split: if_splits)
  with j g' show ?thesis by auto
qed

lemma legal_step_sum:
  assumes "legal_step r g g'"
  shows "sum_list (Board_iter (board g')) < sum_list (Board_iter (board g))"
proof -
  obtain s0 s1 s2 where s: "state (board g) = (s0, s1, s2)"
    by (cases "state (board g)") auto
  from legal_step_cases [OF assms s] s show ?thesis
    by (auto simp: Board_iter_def)
qed

text \<open>
  The stones that can still be taken: a heap below zero offers none. This number falls
  with every turn, whatever the board.
\<close>

lemma legal_step_measure:
  assumes "legal_step r g g'"
  shows "sum_list (map nat (Board_iter (board g'))) < sum_list (map nat (Board_iter (board g)))"
proof -
  obtain s0 s1 s2 where s: "state (board g) = (s0, s1, s2)"
    by (cases "state (board g)") auto
  from legal_step_cases [OF assms s] s show ?thesis
    by (auto simp: Board_iter_def)
qed

lemma wf_legal_step: "wf {(g', g). legal_step r g g'}"
proof (rule wf_subset)
  show "wf (measure (\<lambda>g. sum_list (map nat (Board_iter (board g)))))"
    by simp
  show "{(g', g). legal_step r g g'} \<subseteq> measure (\<lambda>g. sum_list (map nat (Board_iter (board g))))"
    using legal_step_measure by auto
qed

lemma legal_step_invariant:
  assumes "legal_step r g g'" and "heaps_nonneg (board g)"
  shows "heaps_nonneg (board g') \<and> valid_player_idx g'"
proof -
  obtain s0 s1 s2 where s: "state (board g) = (s0, s1, s2)"
    by (cases "state (board g)") auto
  from legal_step_cases [OF assms(1) s] s assms(2) show ?thesis
    by (auto simp: Board_iter_def heaps_nonneg_def valid_player_idx_def)
qed

lemma reachable_invariant:
  assumes "(legal_step r)\<^sup>*\<^sup>* g0 g" and "heaps_nonneg (board g0)" and "valid_player_idx g0"
  shows "heaps_nonneg (board g) \<and> valid_player_idx g"
  using assms
  by (induction rule: rtranclp_induct) (auto dest: legal_step_invariant)

lemma stuck_iff_zero:
  assumes "heaps_nonneg (board g)" and "valid_player_idx g"
  shows "(\<nexists>g'. legal_step r g g') \<longleftrightarrow> state (board g) = (0, 0, 0)"
proof
  assume z: "state (board g) = (0, 0, 0)"
  from assms(2) obtain p where "player g = Inr p"
    using player_valid by blast
  with z have "get_legal_moves g = Inr []"
    by (simp add: get_legal_moves_def winner_def determine_winner_def Board_iter_def)
  then show "\<nexists>g'. legal_step r g g'"
    by (simp add: legal_step_def)
next
  assume stuck: "\<nexists>g'. legal_step r g g'"
  obtain s0 s1 s2 where s: "state (board g) = (s0, s1, s2)"
    by (cases "state (board g)") auto
  from assms(2) obtain p where p: "player g = Inr p"
    using player_valid by blast
  show "state (board g) = (0, 0, 0)"
  proof (rule ccontr)
    assume nz: "state (board g) \<noteq> (0, 0, 0)"
    with s assms(1) have pos: "0 < s0 \<or> 0 < s1 \<or> 0 < s2" and sum: "s0 + s1 + s2 \<noteq> 0"
      by (auto simp: heaps_nonneg_def Board_iter_def)
    from sum s have open_board: "sum_list (Board_iter (board g)) \<noteq> 0"
      by (simp add: Board_iter_def)
    let ?ms = "takes 0 s0 @ takes 1 s1 @ takes 2 s2"
    have ms: "get_legal_moves g = Inr ?ms"
      by (rule get_legal_moves_open [OF open_board s])
    have one: "Move i 1 \<in> set (takes i n)" if "0 < n" for i n
      using that by (simp add: set_takes)
    from pos have "\<exists>m. m \<in> set ?ms"
      using one [of s0 0] one [of s1 1] one [of s2 2] by auto
    then obtain m where m: "m \<in> set ?ms" ..
    from legal_move_applies [OF ms m p, of r] obtain g' where "make_move r g (Some m) = Inr g'"
      by blast
    with ms m have "legal_step r g g'"
      by (auto simp: legal_step_def)
    with stuck show False by blast
  qed
qed

section \<open>The claims\<close>

subsection \<open>C1: the winner of a game that a move has ended\<close>

text \<open>
  Claim C1 says that after \<open>make_move\<close> produces a board with all three heaps zero, the
  winner is the player who supplied that last move. The code returns the player whose
  turn it is in the new game (its comment: "last player to have taken a stone loses").
  Player 1 takes the last stone of board (1,0,0); the winner is player 2.
\<close>

theorem last_mover_counterexample:
  "make_move (Inl IndexError)
     \<lparr>players = (Player 1 RandomAgent, Player 2 RandomAgent),
      board = \<lparr>state = (1, 0, 0)\<rparr>, player_idx = 0\<rparr> (Some (Move 0 1)) =
     Inr \<lparr>players = (Player 1 RandomAgent, Player 2 RandomAgent),
          board = \<lparr>state = (0, 0, 0)\<rparr>, player_idx = 1\<rparr> \<and>
   player \<lparr>players = (Player 1 RandomAgent, Player 2 RandomAgent),
           board = \<lparr>state = (1, 0, 0)\<rparr>, player_idx = 0\<rparr> = Inr (Player 1 RandomAgent) \<and>
   determine_winner \<lparr>players = (Player 1 RandomAgent, Player 2 RandomAgent),
           board = \<lparr>state = (0, 0, 0)\<rparr>, player_idx = 1\<rparr> = Inr (Some (Player 2 RandomAgent)) \<and>
   winner \<lparr>players = (Player 1 RandomAgent, Player 2 RandomAgent),
           board = \<lparr>state = (0, 0, 0)\<rparr>, player_idx = 1\<rparr> = Inr (Some (Player 2 RandomAgent)) \<and>
   \<not> Player_eq (Player 2 RandomAgent) (Player 1 RandomAgent)"
  by (simp add: make_move_def get_next_player_idx_player player_cases apply_move_def
      subscript_def winner_def determine_winner_def Board_iter_def Player_eq_def)

text \<open>
  Claim C1, amended: when \<open>make_move\<close> with a supplied move produces a board with all
  three heaps zero, \<open>determine_winner\<close> and the property \<open>winner\<close> of the new game give
  the current player of the new game, which is the second of the players if the player
  who moved equals \<^verbatim>\<open>Player(1)\<close> and the first of them otherwise. When the players are
  (Player(1), Player(2)) the winner is the opponent of the player who supplied the last
  move.
\<close>

theorem terminal_winner_is_next_player:
  assumes "make_move r g (Some m) = Inr g'" and "state (board g') = (0, 0, 0)"
  shows "\<exists>p w. player g = Inr p \<and> player g' = Inr w \<and>
     determine_winner g' = Inr (Some w) \<and> winner g' = Inr (Some w) \<and>
     w = (if Player_eq p (Player 1 RandomAgent) then snd (players g) else fst (players g)) \<and>
     (Player_i (fst (players g)) = 1 \<and> Player_i (snd (players g)) = 2 \<longrightarrow>
        \<not> Player_eq w p \<and> Player_i w = 3 - Player_i p)"
proof -
  from assms(1) obtain p b where p: "player g = Inr p"
    and g': "g' = \<lparr>players = players g, board = b,
                   player_idx = (if Player_i p = 1 then 1 else 0)\<rparr>"
    by (auto simp: make_move_Some)
  let ?w = "if Player_i p = 1 then snd (players g) else fst (players g)"
  have w: "player g' = Inr ?w"
    by (simp add: g' player_cases)
  have p_in: "p = fst (players g) \<or> p = snd (players g)"
    using p by (auto simp: player_cases split: if_splits)
  have "determine_winner g' = Inr (Some ?w)"
    using assms(2) w by (simp add: determine_winner_def Board_iter_def)
  with p w p_in show ?thesis
    by (auto simp: winner_def Player_eq_def)
qed

text \<open>Player 2 takes the last two stones of board (0,0,2); the winner is player 1.\<close>

theorem terminal_winner_is_next_player_witness:
  "make_move (Inl IndexError)
     \<lparr>players = (Player 1 RandomAgent, Player 2 RandomAgent),
      board = \<lparr>state = (0, 0, 2)\<rparr>, player_idx = 1\<rparr> (Some (Move 2 2)) =
     Inr \<lparr>players = (Player 1 RandomAgent, Player 2 RandomAgent),
          board = \<lparr>state = (0, 0, 0)\<rparr>, player_idx = 0\<rparr> \<and>
   player \<lparr>players = (Player 1 RandomAgent, Player 2 RandomAgent),
      board = \<lparr>state = (0, 0, 2)\<rparr>, player_idx = 1\<rparr> = Inr (Player 2 RandomAgent) \<and>
   winner \<lparr>players = (Player 1 RandomAgent, Player 2 RandomAgent),
          board = \<lparr>state = (0, 0, 0)\<rparr>, player_idx = 0\<rparr> = Inr (Some (Player 1 RandomAgent))"
proof -
  have mm: "make_move (Inl IndexError)
     \<lparr>players = (Player 1 RandomAgent, Player 2 RandomAgent),
      board = \<lparr>state = (0, 0, 2)\<rparr>, player_idx = 1\<rparr> (Some (Move 2 2)) =
     Inr \<lparr>players = (Player 1 RandomAgent, Player 2 RandomAgent),
          board = \<lparr>state = (0, 0, 0)\<rparr>, player_idx = 0\<rparr>"
    by (simp add: make_move_def get_next_player_idx_player player_cases apply_move_def
        subscript_def)
  show ?thesis
    using terminal_winner_is_next_player [OF mm] mm
    by (simp add: player_cases Player_eq_def)
qed

subsection \<open>C2: the match on board (1,1,1)\<close>

text \<open>
  Claim C2: from the game with board (1,1,1), players (Player(1), Player(2)) and player 1
  to move, the moves Move(0,1), Move(1,1), Move(2,1) applied with \<open>make_move\<close> give the
  boards (0,1,1), (0,0,1), (0,0,0) in that order, and the winner of the last game is
  Player(2).
\<close>

theorem nim_example_111:
  "init_game rb (Some \<lparr>state = (1, 1, 1)\<rparr>) 0 =
     Inr \<lparr>players = (Player 1 RandomAgent, Player 2 RandomAgent),
          board = \<lparr>state = (1, 1, 1)\<rparr>, player_idx = 0\<rparr> \<and>
   player \<lparr>players = (Player 1 RandomAgent, Player 2 RandomAgent),
          board = \<lparr>state = (1, 1, 1)\<rparr>, player_idx = 0\<rparr> = Inr (Player 1 RandomAgent) \<and>
   new_Move 0 1 = Inr (Move 0 1) \<and> new_Move 1 1 = Inr (Move 1 1) \<and>
   new_Move 2 1 = Inr (Move 2 1) \<and>
   make_move r \<lparr>players = (Player 1 RandomAgent, Player 2 RandomAgent),
                board = \<lparr>state = (1, 1, 1)\<rparr>, player_idx = 0\<rparr> (Some (Move 0 1)) =
     Inr \<lparr>players = (Player 1 RandomAgent, Player 2 RandomAgent),
          board = \<lparr>state = (0, 1, 1)\<rparr>, player_idx = 1\<rparr> \<and>
   make_move r \<lparr>players = (Player 1 RandomAgent, Player 2 RandomAgent),
                board = \<lparr>state = (0, 1, 1)\<rparr>, player_idx = 1\<rparr> (Some (Move 1 1)) =
     Inr \<lparr>players = (Player 1 RandomAgent, Player 2 RandomAgent),
          board = \<lparr>state = (0, 0, 1)\<rparr>, player_idx = 0\<rparr> \<and>
   make_move r \<lparr>players = (Player 1 RandomAgent, Player 2 RandomAgent),
                board = \<lparr>state = (0, 0, 1)\<rparr>, player_idx = 0\<rparr> (Some (Move 2 1)) =
     Inr \<lparr>players = (Player 1 RandomAgent, Player 2 RandomAgent),
          board = \<lparr>state = (0, 0, 0)\<rparr>, player_idx = 1\<rparr> \<and>
   winner \<lparr>players = (Player 1 RandomAgent, Player 2 RandomAgent),
           board = \<lparr>state = (0, 0, 0)\<rparr>, player_idx = 1\<rparr> = Inr (Some (Player 2 RandomAgent)) \<and>
   determine_winner \<lparr>players = (Player 1 RandomAgent, Player 2 RandomAgent),
           board = \<lparr>state = (0, 0, 0)\<rparr>, player_idx = 1\<rparr> = Inr (Some (Player 2 RandomAgent))"
  by (simp add: init_game_def make_move_def player_def subscript_def apply_move_def
      get_next_player_idx_def winner_def determine_winner_def Board_iter_def Player_eq_def
      new_Move_iff new_Player_def Player_post_init_def POSSIBLE_PLAYERS_def)

subsection \<open>C3: when there is a winner\<close>

text \<open>
  Claim C3 says that for every game \<open>determine_winner\<close> returns None exactly when the
  heap sum is nonzero, and some player when it is zero. Game does not check
  \<open>player_idx\<close>: with index 2 and an empty board the subscript of the players raises
  IndexError, so no player is returned.
\<close>

theorem determine_winner_idx_counterexample:
  "determine_winner \<lparr>players = (Player 1 RandomAgent, Player 2 RandomAgent),
                     board = \<lparr>state = (0, 0, 0)\<rparr>, player_idx = 2\<rparr> = Inl IndexError \<and>
   sum_list (Board_iter \<lparr>state = (0, 0, 0)\<rparr>) = 0"
  by (simp add: determine_winner_def player_cases Board_iter_def)

text \<open>
  Claim C3, amended: the property \<open>winner\<close> is \<open>determine_winner\<close>; for every game it
  returns None if and only if the heap sum is nonzero; when the heap sum is zero it
  returns the current player if \<open>player_idx\<close> lies between \<open>-2\<close> and \<open>1\<close>, and raises
  IndexError otherwise.
\<close>

theorem determine_winner_None_iff:
  "winner g = determine_winner g \<and>
   (determine_winner g = Inr None \<longleftrightarrow> sum_list (Board_iter (board g)) \<noteq> 0) \<and>
   (sum_list (Board_iter (board g)) = 0 \<and> valid_player_idx g \<longrightarrow>
      (\<exists>p. determine_winner g = Inr (Some p) \<and> player g = Inr p)) \<and>
   (sum_list (Board_iter (board g)) = 0 \<and> \<not> valid_player_idx g \<longrightarrow>
      determine_winner g = Inl IndexError)"
  using player_valid [of g] player_invalid [of g]
  by (auto simp: winner_def determine_winner_def split: sum.splits)

theorem determine_winner_None_iff_witness:
  "sum_list (Board_iter (board \<lparr>players = (Player 1 RandomAgent, Player 2 RandomAgent),
       board = \<lparr>state = (0, 0, 0)\<rparr>, player_idx = 1\<rparr>)) = 0 \<and>
   valid_player_idx \<lparr>players = (Player 1 RandomAgent, Player 2 RandomAgent),
       board = \<lparr>state = (0, 0, 0)\<rparr>, player_idx = 1\<rparr> \<and>
   determine_winner \<lparr>players = (Player 1 RandomAgent, Player 2 RandomAgent),
       board = \<lparr>state = (0, 0, 0)\<rparr>, player_idx = 1\<rparr> = Inr (Some (Player 2 RandomAgent)) \<and>
   determine_winner \<lparr>players = (Player 1 RandomAgent, Player 2 RandomAgent),
       board = \<lparr>state = (0, 2, 0)\<rparr>, player_idx = 1\<rparr> = Inr None"
  using determine_winner_None_iff [of "\<lparr>players = (Player 1 RandomAgent, Player 2 RandomAgent),
       board = \<lparr>state = (0, 0, 0)\<rparr>, player_idx = 1\<rparr>"]
    determine_winner_None_iff [of "\<lparr>players = (Player 1 RandomAgent, Player 2 RandomAgent),
       board = \<lparr>state = (0, 2, 0)\<rparr>, player_idx = 1\<rparr>"]
  by (simp add: Board_iter_def valid_player_idx_def player_cases)

subsection \<open>C4: a move that the heap can pay\<close>

text \<open>
  Claim C4: for every board, every heap index \<open>i\<close> in {0,1,2} and every count \<open>j\<close> with
  \<open>1 \<le> j\<close> and \<open>j\<close> at most the size of heap \<open>i\<close>, \<^verbatim>\<open>apply_move(board, Move(i, j))\<close>
  returns a board whose heap \<open>i\<close> is the old value minus \<open>j\<close>, hence strictly smaller,
  and whose other heaps are unchanged. Boards are immutable values (a frozen dataclass
  over a tuple), so \<open>apply_move\<close> is a function of its arguments and the board \<open>b\<close>
  it was given is the same value afterwards.
\<close>

theorem apply_move_takes_stones:
  assumes "i \<in> {0, 1, 2}" and "1 \<le> j" and "j \<le> Board_iter b ! nat i"
  shows "\<exists>b'. new_Move i j = Inr (Move i j) \<and> apply_move b (Move i j) p = Inr b' \<and>
     Board_iter b' ! nat i = Board_iter b ! nat i - j \<and>
     Board_iter b' ! nat i < Board_iter b ! nat i \<and>
     (\<forall>k \<in> {0, 1, 2}. k \<noteq> nat i \<longrightarrow> Board_iter b' ! k = Board_iter b ! k)"
proof -
  obtain s0 s1 s2 where s: "state b = (s0, s1, s2)"
    by (cases "state b") auto
  have m: "new_Move i j = Inr (Move i j)"
    using assms(1,2) by (simp add: new_Move_iff)
  from assms(1) consider "i = 0" | "i = 1" | "i = 2"
    by auto
  then show ?thesis
  proof cases
    case 1
    with assms s m show ?thesis
      by (simp add: apply_move_heap0 [OF s] Board_iter_def)
  next
    case 2
    with assms s m show ?thesis
      by (simp add: apply_move_heap1 [OF s] Board_iter_def)
  next
    case 3
    with assms s m show ?thesis
      by (simp add: apply_move_heap2 [OF s] Board_iter_def)
  qed
qed

theorem apply_move_takes_stones_witness:
  "(1::int) \<in> {0, 1, 2} \<and> (1::int) \<le> 2 \<and> 2 \<le> Board_iter \<lparr>state = (3, 4, 5)\<rparr> ! nat 1 \<and>
   apply_move \<lparr>state = (3, 4, 5)\<rparr> (Move 1 2) (Player 1 RandomAgent) = Inr \<lparr>state = (3, 2, 5)\<rparr>"
  using apply_move_takes_stones [of 1 2 "\<lparr>state = (3, 4, 5)\<rparr>" "Player 1 RandomAgent"]
  by (simp add: Board_iter_def apply_move_heap1)

subsection \<open>C5: a move that the heap cannot pay\<close>

text \<open>
  Claim C5: for every board and every move \<^verbatim>\<open>Move(i, j)\<close> (one that the constructor
  has accepted), \<open>apply_move\<close> raises ValueError if and only if heap \<open>i\<close> holds fewer
  than \<open>j\<close> stones; when it raises, it returns no board.
\<close>

theorem apply_move_raises_iff:
  assumes "new_Move i j = Inr m"
  shows "(apply_move b m p = Inl (ValueError ''illegal move'') \<longleftrightarrow> Board_iter b ! nat i < j) \<and>
         (isl (apply_move b m p) \<longleftrightarrow> Board_iter b ! nat i < j)"
proof -
  obtain s0 s1 s2 where s: "state b = (s0, s1, s2)"
    by (cases "state b") auto
  from assms have i: "i \<in> {0, 1, 2}" and m: "m = Move i j"
    by (simp_all add: new_Move_iff)
  from i consider "i = 0" | "i = 1" | "i = 2"
    by auto
  then show ?thesis
  proof cases
    case 1
    with s m show ?thesis
      by (simp add: apply_move_heap0 [OF s] Board_iter_def)
  next
    case 2
    with s m show ?thesis
      by (simp add: apply_move_heap1 [OF s] Board_iter_def)
  next
    case 3
    with s m show ?thesis
      by (simp add: apply_move_heap2 [OF s] Board_iter_def)
  qed
qed

theorem apply_move_raises_iff_witness:
  "new_Move 0 4 = Inr (Move 0 4) \<and>
   apply_move \<lparr>state = (3, 4, 5)\<rparr> (Move 0 4) (Player 1 RandomAgent) =
     Inl (ValueError ''illegal move'') \<and>
   Board_iter \<lparr>state = (3, 4, 5)\<rparr> ! nat 0 < 4"
  using apply_move_raises_iff [of 0 4 "Move 0 4" "\<lparr>state = (3, 4, 5)\<rparr>" "Player 1 RandomAgent"]
  by (simp add: new_Move_iff Board_iter_def)

subsection \<open>C6: the legal moves of an open board\<close>

text \<open>
  Claim C6: for every game whose heap sum is nonzero, \<open>get_legal_moves\<close> returns a list
  whose elements are exactly the moves \<^verbatim>\<open>Move(i, j)\<close> with heap \<open>i\<close> nonzero and
  \<open>1 \<le> j \<le>\<close> the size of heap \<open>i\<close>.
\<close>

theorem get_legal_moves_exact:
  assumes "sum_list (Board_iter (board g)) \<noteq> 0"
  shows "\<exists>ms. get_legal_moves g = Inr ms \<and>
     set ms = {Move i j | i j. i \<in> {0, 1, 2} \<and> Board_iter (board g) ! nat i \<noteq> 0 \<and>
                  1 \<le> j \<and> j \<le> Board_iter (board g) ! nat i}"
proof -
  obtain s0 s1 s2 where s: "state (board g) = (s0, s1, s2)"
    by (cases "state (board g)") auto
  have "set (takes 0 s0 @ takes 1 s1 @ takes 2 s2) =
     {Move i j | i j. i \<in> {0, 1, 2} \<and> Board_iter (board g) ! nat i \<noteq> 0 \<and>
                  1 \<le> j \<and> j \<le> Board_iter (board g) ! nat i}"
    by (auto simp: set_takes s Board_iter_def)
  with get_legal_moves_open [OF assms s] show ?thesis
    by simp
qed

theorem get_legal_moves_exact_witness:
  "sum_list (Board_iter (board \<lparr>players = (Player 1 RandomAgent, Player 2 RandomAgent),
       board = \<lparr>state = (2, 0, 3)\<rparr>, player_idx = 0\<rparr>)) \<noteq> 0 \<and>
   (\<exists>ms. get_legal_moves \<lparr>players = (Player 1 RandomAgent, Player 2 RandomAgent),
       board = \<lparr>state = (2, 0, 3)\<rparr>, player_idx = 0\<rparr> = Inr ms \<and>
       Move 2 3 \<in> set ms \<and> Move 0 2 \<in> set ms \<and> Move 1 1 \<notin> set ms \<and> Move 0 3 \<notin> set ms)"
proof -
  let ?g = "\<lparr>players = (Player 1 RandomAgent, Player 2 RandomAgent),
       board = \<lparr>state = (2, 0, 3)\<rparr>, player_idx = 0\<rparr>"
  have n: "sum_list (Board_iter (board ?g)) \<noteq> 0"
    by (simp add: Board_iter_def)
  from get_legal_moves_exact [OF n] obtain ms where ms: "get_legal_moves ?g = Inr ms"
    and set: "set ms = {Move i j | i j. i \<in> {0, 1, 2} \<and> Board_iter (board ?g) ! nat i \<noteq> 0 \<and>
                  1 \<le> j \<and> j \<le> Board_iter (board ?g) ! nat i}"
    by blast
  have "Move 2 3 \<in> set ms" "Move 0 2 \<in> set ms" "Move 1 1 \<notin> set ms" "Move 0 3 \<notin> set ms"
    unfolding set by (simp_all add: Board_iter_def)
  with n ms show ?thesis
    by blast
qed

subsection \<open>C7: the legal moves of an empty board\<close>

text \<open>
  Claim C7 says that for every game whose heaps are all zero \<open>get_legal_moves\<close> returns
  the empty list. The function first reads the winner, and with it the current player:
  with \<open>player_idx = 2\<close> it raises IndexError.
\<close>

theorem get_legal_moves_idx_counterexample:
  "get_legal_moves \<lparr>players = (Player 1 RandomAgent, Player 2 RandomAgent),
                    board = \<lparr>state = (0, 0, 0)\<rparr>, player_idx = 2\<rparr> = Inl IndexError"
  by (simp add: get_legal_moves_def winner_def determine_winner_def player_cases Board_iter_def)

text \<open>
  Claim C7, amended: for every game whose heaps are all zero and whose \<open>player_idx\<close>
  lies between \<open>-2\<close> and \<open>1\<close>, \<open>get_legal_moves\<close> returns the empty list.
\<close>

theorem get_legal_moves_terminal:
  assumes "state (board g) = (0, 0, 0)" and "valid_player_idx g"
  shows "get_legal_moves g = Inr []"
  using assms player_valid [of g]
  by (auto simp: get_legal_moves_def winner_def determine_winner_def Board_iter_def)

theorem get_legal_moves_terminal_witness:
  "state (board \<lparr>players = (Player 1 RandomAgent, Player 2 RandomAgent),
       board = \<lparr>state = (0, 0, 0)\<rparr>, player_idx = 0\<rparr>) = (0, 0, 0) \<and>
   valid_player_idx \<lparr>players = (Player 1 RandomAgent, Player 2 RandomAgent),
       board = \<lparr>state = (0, 0, 0)\<rparr>, player_idx = 0\<rparr> \<and>
   get_legal_moves \<lparr>players = (Player 1 RandomAgent, Player 2 RandomAgent),
       board = \<lparr>state = (0, 0, 0)\<rparr>, player_idx = 0\<rparr> = Inr []"
  using get_legal_moves_terminal [of "\<lparr>players = (Player 1 RandomAgent, Player 2 RandomAgent),
       board = \<lparr>state = (0, 0, 0)\<rparr>, player_idx = 0\<rparr>"]
  by (simp add: valid_player_idx_def)

subsection \<open>C8: every match ends\<close>

text \<open>
  Claim C8 says that from every initial board, applying legal moves (taken from
  \<open>get_legal_moves\<close>, applied with \<open>make_move\<close>) always ends in the board with all heaps
  zero, the heap sum being bounded below by zero. Board does not check its heaps and
  Game does not check \<open>player_idx\<close>. From board (-1,2,0) the legal move Move(1,1)
  leads to (-1,1,0), whose heap sum is zero: there is a winner and no legal move, and
  the heaps are not all zero. Board (-1,0,0) has no legal move and a heap sum below
  zero. With \<open>player_idx = 2\<close> the legal move Move(0,1) of board (1,0,0) cannot be
  applied: \<open>make_move\<close> raises IndexError.
\<close>

theorem play_counterexample:
  "get_legal_moves \<lparr>players = (Player 1 RandomAgent, Player 2 RandomAgent),
       board = \<lparr>state = (- 1, 2, 0)\<rparr>, player_idx = 0\<rparr> = Inr [Move 1 1, Move 1 2] \<and>
   make_move (Inl IndexError) \<lparr>players = (Player 1 RandomAgent, Player 2 RandomAgent),
       board = \<lparr>state = (- 1, 2, 0)\<rparr>, player_idx = 0\<rparr> (Some (Move 1 1)) =
     Inr \<lparr>players = (Player 1 RandomAgent, Player 2 RandomAgent),
          board = \<lparr>state = (- 1, 1, 0)\<rparr>, player_idx = 1\<rparr> \<and>
   get_legal_moves \<lparr>players = (Player 1 RandomAgent, Player 2 RandomAgent),
       board = \<lparr>state = (- 1, 1, 0)\<rparr>, player_idx = 1\<rparr> = Inr [] \<and>
   state \<lparr>state = (- 1, 1, 0)\<rparr> \<noteq> (0, 0, 0) \<and>
   get_legal_moves \<lparr>players = (Player 1 RandomAgent, Player 2 RandomAgent),
       board = \<lparr>state = (- 1, 0, 0)\<rparr>, player_idx = 0\<rparr> = Inr [] \<and>
   sum_list (Board_iter \<lparr>state = (- 1, 0, 0)\<rparr>) < 0 \<and>
   get_legal_moves \<lparr>players = (Player 1 RandomAgent, Player 2 RandomAgent),
       board = \<lparr>state = (1, 0, 0)\<rparr>, player_idx = 2\<rparr> = Inr [Move 0 1] \<and>
   make_move (Inl IndexError) \<lparr>players = (Player 1 RandomAgent, Player 2 RandomAgent),
       board = \<lparr>state = (1, 0, 0)\<rparr>, player_idx = 2\<rparr> (Some (Move 0 1)) = Inl IndexError"
proof -
  have a: "get_legal_moves \<lparr>players = (Player 1 RandomAgent, Player 2 RandomAgent),
       board = \<lparr>state = (- 1, 2, 0)\<rparr>, player_idx = 0\<rparr> = Inr [Move 1 1, Move 1 2]"
    by (simp add: get_legal_moves_open [of _ "- 1" 2 0] Board_iter_def takes_def upto.simps)
  have b: "get_legal_moves \<lparr>players = (Player 1 RandomAgent, Player 2 RandomAgent),
       board = \<lparr>state = (- 1, 0, 0)\<rparr>, player_idx = 0\<rparr> = Inr []"
    by (simp add: get_legal_moves_open [of _ "- 1" 0 0] Board_iter_def takes_def upto.simps)
  have c: "get_legal_moves \<lparr>players = (Player 1 RandomAgent, Player 2 RandomAgent),
       board = \<lparr>state = (1, 0, 0)\<rparr>, player_idx = 2\<rparr> = Inr [Move 0 1]"
    by (simp add: get_legal_moves_open [of _ 1 0 0] Board_iter_def takes_def upto.simps)
  have d: "get_legal_moves \<lparr>players = (Player 1 RandomAgent, Player 2 RandomAgent),
       board = \<lparr>state = (- 1, 1, 0)\<rparr>, player_idx = 1\<rparr> = Inr []"
    by (simp add: get_legal_moves_def winner_def determine_winner_def Board_iter_def
        player_cases)
  show ?thesis
    unfolding a b c d
    by (simp add: make_move_def get_next_player_idx_player player_cases apply_move_heap1
        Board_iter_def)
qed

text \<open>
  Claim C8, amended: from every initial game whose heaps are all non-negative and whose
  \<open>player_idx\<close> lies between \<open>-2\<close> and \<open>1\<close>, applying legal moves (taken from
  \<open>get_legal_moves\<close>, applied with \<open>make_move\<close>) always ends in the board with all heaps
  zero. In detail, for every game \<open>g\<close> reached from such a game \<open>g0\<close>:
  no sequence of turns goes on forever; the heap sum is at least zero; every turn
  strictly lowers it; every legal move can be applied; and no turn is possible from
  \<open>g\<close> exactly when all heaps of \<open>g\<close> are zero.
\<close>

theorem play_terminates_all_zero:
  assumes "heaps_nonneg (board g0)" and "valid_player_idx g0"
    and "(legal_step r)\<^sup>*\<^sup>* g0 g"
  shows "wf {(g2, g1). legal_step r g1 g2} \<and>
     0 \<le> sum_list (Board_iter (board g)) \<and>
     (\<forall>g'. legal_step r g g' \<longrightarrow>
        sum_list (Board_iter (board g')) < sum_list (Board_iter (board g))) \<and>
     (\<forall>ms. get_legal_moves g = Inr ms \<longrightarrow>
        (\<forall>m \<in> set ms. \<exists>g'. make_move r g (Some m) = Inr g')) \<and>
     ((\<nexists>g'. legal_step r g g') \<longleftrightarrow> state (board g) = (0, 0, 0))"
proof -
  from reachable_invariant [OF assms(3,1,2)]
  have nn: "heaps_nonneg (board g)" and v: "valid_player_idx g"
    by simp_all
  from nn have "0 \<le> sum_list (Board_iter (board g))"
    by (simp add: heaps_nonneg_def sum_list_nonneg)
  moreover have "\<exists>g'. make_move r g (Some m) = Inr g'"
    if "get_legal_moves g = Inr ms" and "m \<in> set ms" for ms m
  proof -
    from v obtain p where "player g = Inr p"
      using player_valid by blast
    from legal_move_applies [OF that this] show ?thesis
      by blast
  qed
  ultimately show ?thesis
    using wf_legal_step [of r] legal_step_sum [of r g] stuck_iff_zero [OF nn v, of r]
    by blast
qed

text \<open>From board (0,1,0) the one legal move ends the match on the empty board.\<close>

theorem play_terminates_all_zero_witness:
  "heaps_nonneg (board \<lparr>players = (Player 1 RandomAgent, Player 2 RandomAgent),
       board = \<lparr>state = (0, 1, 0)\<rparr>, player_idx = 0\<rparr>) \<and>
   valid_player_idx \<lparr>players = (Player 1 RandomAgent, Player 2 RandomAgent),
       board = \<lparr>state = (0, 1, 0)\<rparr>, player_idx = 0\<rparr> \<and>
   (legal_step (Inl IndexError))\<^sup>*\<^sup>*
      \<lparr>players = (Player 1 RandomAgent, Player 2 RandomAgent),
       board = \<lparr>state = (0, 1, 0)\<rparr>, player_idx = 0\<rparr>
      \<lparr>players = (Player 1 RandomAgent, Player 2 RandomAgent),
       board = \<lparr>state = (0, 0, 0)\<rparr>, player_idx = 1\<rparr> \<and>
   (\<nexists>g'. legal_step (Inl IndexError)
      \<lparr>players = (Player 1 RandomAgent, Player 2 RandomAgent),
       board = \<lparr>state = (0, 0, 0)\<rparr>, player_idx = 1\<rparr> g') \<and>
   wf {(g2, g1). legal_step (Inl IndexError) g1 g2}"
proof -
  let ?g0 = "\<lparr>players = (Player 1 RandomAgent, Player 2 RandomAgent),
       board = \<lparr>state = (0, 1, 0)\<rparr>, player_idx = 0\<rparr>"
  let ?g1 = "\<lparr>players = (Player 1 RandomAgent, Player 2 RandomAgent),
       board = \<lparr>state = (0, 0, 0)\<rparr>, player_idx = 1\<rparr>"
  have nn: "heaps_nonneg (board ?g0)"
    by (simp add: heaps_nonneg_def Board_iter_def)
  have v: "valid_player_idx ?g0"
    by (simp add: valid_player_idx_def)
  have ms: "get_legal_moves ?g0 = Inr [Move 1 1]"
    by (simp add: get_legal_moves_open [of ?g0 0 1 0] Board_iter_def takes_def)
  have mm: "make_move (Inl IndexError) ?g0 (Some (Move 1 1)) = Inr ?g1"
    by (simp add: make_move_def get_next_player_idx_player player_cases apply_move_heap1)
  have "legal_step (Inl IndexError) ?g0 ?g1"
    by (simp add: legal_step_def ms mm)
  then have st: "(legal_step (Inl IndexError))\<^sup>*\<^sup>* ?g0 ?g1"
    by (rule r_into_rtranclp)
  show ?thesis
    using play_terminates_all_zero [OF nn v st] nn v st by simp
qed

subsection \<open>C9: what the constructors accept\<close>

text \<open>
  Claim C9: \<^verbatim>\<open>Move(i, j)\<close> raises a validation error (ValueError) if and only if \<open>i\<close> is
  not in {0,1,2} or \<open>j < 1\<close>; \<^verbatim>\<open>Player(i)\<close> raises one if and only if \<open>i\<close> is not in
  {-1,1,2}; every other construction succeeds and stores its arguments.
\<close>

theorem construction_validates:
  "(isl (new_Move i j) \<longleftrightarrow> i \<notin> {0, 1, 2} \<or> j < 1) \<and>
   (isl (new_Move i j) \<longrightarrow> (\<exists>msg. new_Move i j = Inl (ValueError msg))) \<and>
   (\<not> isl (new_Move i j) \<longrightarrow> new_Move i j = Inr (Move i j)) \<and>
   (isl (new_Player k a) \<longleftrightarrow> k \<notin> {-1, 1, 2}) \<and>
   (isl (new_Player k a) \<longrightarrow> (\<exists>msg. new_Player k a = Inl (ValueError msg))) \<and>
   (\<not> isl (new_Player k a) \<longrightarrow> new_Player k a = Inr (Player k a))"
  by (auto simp: new_Move_def Move_post_init_def POSSIBLE_HEAPS_def
      new_Player_def Player_post_init_def POSSIBLE_PLAYERS_def)

theorem construction_validates_witness:
  "isl (new_Move 3 1) \<and> isl (new_Move 0 0) \<and> new_Move 2 1 = Inr (Move 2 1) \<and>
   isl (new_Player 0 RandomAgent) \<and>
   new_Player (- 1) RandomAgent = Inr (Player (- 1) RandomAgent)"
  using construction_validates [of 3 1 0 RandomAgent]
    construction_validates [of 0 0 0 RandomAgent]
    construction_validates [of 2 1 "- 1" RandomAgent]
  by simp

subsection \<open>C10: whose turn is next\<close>

text \<open>
  Claim C10 says that \<open>get_next_player_idx\<close> returns 1 if the current player equals
  Player(1) and 0 otherwise, that with players (Player(1), Player(2)) a legal move flips
  \<open>player_idx\<close> between 0 and 1, and that the index never changes when neither player
  equals Player(1). With players (Player(2), Player(2)) and \<open>player_idx = 1\<close> the legal
  move Move(0,1) changes the index to 0. With \<open>player_idx = 2\<close> there is no current
  player and \<open>get_next_player_idx\<close> raises IndexError.
\<close>

theorem next_player_idx_counterexample:
  "get_legal_moves \<lparr>players = (Player 2 RandomAgent, Player 2 RandomAgent),
       board = \<lparr>state = (1, 0, 0)\<rparr>, player_idx = 1\<rparr> = Inr [Move 0 1] \<and>
   make_move (Inl IndexError) \<lparr>players = (Player 2 RandomAgent, Player 2 RandomAgent),
       board = \<lparr>state = (1, 0, 0)\<rparr>, player_idx = 1\<rparr> (Some (Move 0 1)) =
     Inr \<lparr>players = (Player 2 RandomAgent, Player 2 RandomAgent),
          board = \<lparr>state = (0, 0, 0)\<rparr>, player_idx = 0\<rparr> \<and>
   \<not> Player_eq (Player 2 RandomAgent) (Player 1 RandomAgent) \<and>
   get_next_player_idx \<lparr>players = (Player 1 RandomAgent, Player 2 RandomAgent),
       board = \<lparr>state = (1, 0, 0)\<rparr>, player_idx = 2\<rparr> = Inl IndexError"
proof -
  have a: "get_legal_moves \<lparr>players = (Player 2 RandomAgent, Player 2 RandomAgent),
       board = \<lparr>state = (1, 0, 0)\<rparr>, player_idx = 1\<rparr> = Inr [Move 0 1]"
    by (simp add: get_legal_moves_open [of _ 1 0 0] Board_iter_def takes_def upto.simps)
  show ?thesis
    unfolding a
    by (simp add: make_move_def get_next_player_idx_player player_cases apply_move_heap0
        Player_eq_def)
qed

text \<open>
  Claim C10, amended: for every game whose \<open>player_idx\<close> lies between \<open>-2\<close> and \<open>1\<close>,
  \<open>get_next_player_idx\<close> returns 1 if the current player equals Player(1) and 0
  otherwise; for any other index it raises IndexError. \<open>init_game\<close> builds the players
  (Player(1), Player(2)). For every game with such players and \<open>player_idx\<close> 0 or 1,
  \<open>make_move\<close> with a legal move succeeds and turns index 0 into 1 and index 1 into 0.
  For a game neither of whose players equals Player(1), the index is 0 after every
  move that \<open>make_move\<close> applies.
\<close>

theorem next_player_idx_flips:
  "(valid_player_idx g \<longrightarrow>
      (\<exists>p. player g = Inr p \<and>
         get_next_player_idx g = Inr (if Player_eq p (Player 1 RandomAgent) then 1 else 0))) \<and>
   (\<not> valid_player_idx g \<longrightarrow> get_next_player_idx g = Inl IndexError) \<and>
   init_game rb bo k =
     Inr \<lparr>players = (Player 1 RandomAgent, Player 2 RandomAgent),
          board = (case bo of None \<Rightarrow> rb | Some b \<Rightarrow> b), player_idx = k\<rparr> \<and>
   (Player_eq (fst (players g)) (Player 1 RandomAgent) \<and>
    Player_eq (snd (players g)) (Player 2 RandomAgent) \<and>
    player_idx g \<in> {0, 1} \<and> get_legal_moves g = Inr ms \<and> m \<in> set ms \<longrightarrow>
      (\<exists>g'. make_move r g (Some m) = Inr g' \<and> player_idx g' = 1 - player_idx g)) \<and>
   (\<not> Player_eq (fst (players g)) (Player 1 RandomAgent) \<and>
    \<not> Player_eq (snd (players g)) (Player 1 RandomAgent) \<and>
    make_move r g (Some m) = Inr g' \<longrightarrow> player_idx g' = 0)"
proof -
  have a: "\<exists>p. player g = Inr p \<and>
         get_next_player_idx g = Inr (if Player_eq p (Player 1 RandomAgent) then 1 else 0)"
    if "valid_player_idx g"
  proof -
    from that obtain p where "player g = Inr p"
      using player_valid by blast
    then show ?thesis
      by (simp add: get_next_player_idx_player Player_eq_def)
  qed
  have b: "get_next_player_idx g = Inl IndexError" if "\<not> valid_player_idx g"
    using player_invalid [OF that] by (simp add: get_next_player_idx_player)
  have c: "\<exists>g'. make_move r g (Some m) = Inr g' \<and> player_idx g' = 1 - player_idx g"
    if "Player_eq (fst (players g)) (Player 1 RandomAgent)"
      and "Player_eq (snd (players g)) (Player 2 RandomAgent)"
      and "player_idx g \<in> {0, 1}" and "get_legal_moves g = Inr ms" and "m \<in> set ms"
  proof -
    from that(3)
    have p: "player g = Inr (if player_idx g = 0 then fst (players g) else snd (players g))"
      by (auto simp: player_cases)
    from legal_move_applies [OF that(4,5) p, of r] that(1,2,3) show ?thesis
      by (auto simp: Player_eq_def)
  qed
  have d: "player_idx g' = 0"
    if "\<not> Player_eq (fst (players g)) (Player 1 RandomAgent)"
      and "\<not> Player_eq (snd (players g)) (Player 1 RandomAgent)"
      and "make_move r g (Some m) = Inr g'"
  proof -
    from that(3) obtain p where p: "player g = Inr p"
      and i: "player_idx g' = (if Player_i p = 1 then 1 else 0)"
      by (auto simp: make_move_Some)
    from p have "p = fst (players g) \<or> p = snd (players g)"
      by (auto simp: player_cases split: if_splits)
    with that(1,2) i show ?thesis
      by (auto simp: Player_eq_def)
  qed
  have e: "init_game rb bo k =
     Inr \<lparr>players = (Player 1 RandomAgent, Player 2 RandomAgent),
          board = (case bo of None \<Rightarrow> rb | Some b \<Rightarrow> b), player_idx = k\<rparr>"
    by (simp add: init_game_def new_Player_def Player_post_init_def POSSIBLE_PLAYERS_def)
  from a b c d e show ?thesis
    by blast
qed

theorem next_player_idx_flips_witness:
  "valid_player_idx \<lparr>players = (Player 1 RandomAgent, Player 2 CliInputAgent),
       board = \<lparr>state = (0, 0, 1)\<rparr>, player_idx = 0\<rparr> \<and>
   get_next_player_idx \<lparr>players = (Player 1 RandomAgent, Player 2 CliInputAgent),
       board = \<lparr>state = (0, 0, 1)\<rparr>, player_idx = 0\<rparr> = Inr 1 \<and>
   get_legal_moves \<lparr>players = (Player 1 RandomAgent, Player 2 CliInputAgent),
       board = \<lparr>state = (0, 0, 1)\<rparr>, player_idx = 0\<rparr> = Inr [Move 2 1] \<and>
   (\<exists>g'. make_move (Inl IndexError) \<lparr>players = (Player 1 RandomAgent, Player 2 CliInputAgent),
       board = \<lparr>state = (0, 0, 1)\<rparr>, player_idx = 0\<rparr> (Some (Move 2 1)) = Inr g' \<and>
       player_idx g' = 1)"
proof -
  let ?g = "\<lparr>players = (Player 1 RandomAgent, Player 2 CliInputAgent),
       board = \<lparr>state = (0, 0, 1)\<rparr>, player_idx = 0\<rparr>"
  have v: "valid_player_idx ?g"
    by (simp add: valid_player_idx_def)
  have ms: "get_legal_moves ?g = Inr [Move 2 1]"
    by (simp add: get_legal_moves_open [of _ 0 0 1] Board_iter_def takes_def upto.simps)
  show ?thesis
    using next_player_idx_flips [where g = ?g and ms = "[Move 2 1]" and m = "Move 2 1"
        and r = "Inl IndexError"] v ms
    by (simp add: Player_eq_def player_cases)
qed

end
